theory Spec2Isabelle
  imports Complex_Main "HOL-Library.Word"
begin

section \<open>Python values shared by both source files\<close>

text \<open>
  Exceptions of the Python code are values. The loader's \<^verbatim>\<open>except Exception\<close>
  catches every one of them alike, so the datatype only has to tell apart the places
  that raise.
\<close>

datatype py_error =
    ValueError
  | IndexError
  | ZeroDivisionError
  | AssertionError
  | AttributeError
  | OSError

text \<open>
  A decoded image is a height x width x 3 array (\<^verbatim>\<open>np.array(img)\<close> of an RGB image,
  \<^verbatim>\<open>image_data_format\<close> channel-last). The array carries its two spatial extents and
  its entries; the third extent is 3 by the type of a pixel. \<^verbatim>\<open>uint8\<close> entries are
  \<open>8 word\<close>, the scaled float entries are rationals.
\<close>

type_synonym 'a pixel = "'a \<times> 'a \<times> 'a"

record 'a ndarray =
  rows :: nat
  cols :: nat
  px :: "nat \<Rightarrow> nat \<Rightarrow> 'a pixel"

type_synonym uint8 = "8 word"

definition shape :: "'a ndarray \<Rightarrow> nat \<times> nat \<times> nat" where
  "shape a = (rows a, cols a, 3)"

definition map_pixel :: "('a \<Rightarrow> 'b) \<Rightarrow> 'a pixel \<Rightarrow> 'b pixel" where
  "map_pixel f p = (case p of (r, g, b) \<Rightarrow> (f r, f g, f b))"

text \<open>Elementwise arithmetic of numpy: the same scalar function at every entry.\<close>

definition elementwise :: "('a \<Rightarrow> 'b) \<Rightarrow> 'a ndarray \<Rightarrow> 'b ndarray" where
  "elementwise f a = \<lparr>rows = rows a, cols = cols a, px = (\<lambda>i j. map_pixel f (px a i j))\<rparr>"

text \<open>The promotion of a \<^verbatim>\<open>uint8\<close> array to floats that numpy does before a division.\<close>

definition as_float :: "uint8 ndarray \<Rightarrow> rat ndarray" where
  "as_float a = elementwise (\<lambda>v. of_nat (unat v)) a"

text \<open>All three channels of every entry inside the bounds lie in \<open>[lo, hi]\<close>.\<close>

definition pixel_in :: "rat \<Rightarrow> rat \<Rightarrow> rat pixel \<Rightarrow> bool" where
  "pixel_in lo hi p = (case p of (r, g, b) \<Rightarrow>
     lo \<le> r \<and> r \<le> hi \<and> lo \<le> g \<and> g \<le> hi \<and> lo \<le> b \<and> b \<le> hi)"

definition values_in :: "rat \<Rightarrow> rat \<Rightarrow> rat ndarray \<Rightarrow> bool" where
  "values_in lo hi a = (\<forall>i < rows a. \<forall>j < cols a. pixel_in lo hi (px a i j))"

section \<open>util.py: colour scaling\<close>

text \<open>
  \<^verbatim>\<open>scale_lr_imgs\<close>: \<^verbatim>\<open>imgs / 255.\<close>; \<^verbatim>\<open>unscale_lr_imgs\<close>: \<^verbatim>\<open>imgs * 255\<close>;
  \<^verbatim>\<open>scale_hr_imgs\<close>: \<^verbatim>\<open>imgs / 127.5 - 1\<close>; \<^verbatim>\<open>unscale_hr_imgs\<close>: \<^verbatim>\<open>(imgs + 1.) * 127.5\<close>.
  The constant 127.5 is the rational 255 / 2.
\<close>

definition scale_lr_imgs :: "rat ndarray \<Rightarrow> rat ndarray" where
  "scale_lr_imgs imgs = elementwise (\<lambda>v. v / 255) imgs"

definition unscale_lr_imgs :: "rat ndarray \<Rightarrow> rat ndarray" where
  "unscale_lr_imgs imgs = elementwise (\<lambda>v. v * 255) imgs"

definition scale_hr_imgs :: "rat ndarray \<Rightarrow> rat ndarray" where
  "scale_hr_imgs imgs = elementwise (\<lambda>v. v / (255 / 2) - 1) imgs"

definition unscale_hr_imgs :: "rat ndarray \<Rightarrow> rat ndarray" where
  "unscale_hr_imgs imgs = elementwise (\<lambda>v. (v + 1) * (255 / 2)) imgs"

lemma map_pixel_id: "(\<And>v. f v = v) \<Longrightarrow> map_pixel f p = p"
  by (cases p) (simp add: map_pixel_def)

lemma map_pixel_comp: "map_pixel f (map_pixel g p) = map_pixel (\<lambda>v. f (g v)) p"
  by (cases p) (simp add: map_pixel_def)

lemma elementwise_comp: "elementwise f (elementwise g a) = elementwise (\<lambda>v. f (g v)) a"
  by (simp add: elementwise_def map_pixel_comp)

lemma elementwise_id: "(\<And>v. f v = v) \<Longrightarrow> elementwise f a = a"
  by (simp add: elementwise_def map_pixel_id)

lemma rows_elementwise: "rows (elementwise f a) = rows a"
  by (simp add: elementwise_def)

lemma cols_elementwise: "cols (elementwise f a) = cols a"
  by (simp add: elementwise_def)

lemma px_elementwise: "px (elementwise f a) i j = map_pixel f (px a i j)"
  by (simp add: elementwise_def)

text \<open>
  C7. Over exact (rational) arithmetic both scalings are undone by their inverses, for
  every pixel array: \<open>(x / 127.5 - 1 + 1) * 127.5 = x\<close> and \<open>(x / 255) * 255 = x\<close> at
  every entry. The floating-point rounding of the Python floats is outside the model.
\<close>

theorem C7_scale_roundtrip:
  "unscale_hr_imgs (scale_hr_imgs x) = x \<and> unscale_lr_imgs (scale_lr_imgs x) = x"
proof
  show "unscale_hr_imgs (scale_hr_imgs x) = x"
    unfolding unscale_hr_imgs_def scale_hr_imgs_def elementwise_comp
    by (rule elementwise_id) simp
  show "unscale_lr_imgs (scale_lr_imgs x) = x"
    unfolding unscale_lr_imgs_def scale_lr_imgs_def elementwise_comp
    by (rule elementwise_id) simp
qed

section \<open>srgan.py: the network topology\<close>

text \<open>
  A Keras graph is kept as the list of layers it applies, in order. A skip connection
  \<^verbatim>\<open>Add()([f(x), x])\<close> is \<open>Residual\<close> of the layers of \<open>f\<close>. \<open>Conv2D\<close> carries the
  filter count, the kernel size and the stride; every convolution of the source uses
  \<^verbatim>\<open>padding='same'\<close>. Layer names and activations that do not change a shape are not
  kept.
\<close>

datatype layer =
    Conv2D nat nat nat
  | BatchNormalization
  | PReLU
  | LeakyReLU
  | Dense nat
  | SubpixelConv2D nat
  | Residual "layer list"

type_synonym tensor_shape = "nat \<times> nat \<times> nat"

text \<open>
  The shape a layer gives to an input of shape (height, width, channels), \<open>None\<close> where
  Keras rejects the graph. A \<^verbatim>\<open>'same'\<close> convolution of stride \<open>s\<close> keeps
  \<open>ceil (n / s)\<close> positions. \<^verbatim>\<open>subpixel_shape\<close> multiplies both spatial extents by
  \<open>scale\<close> and divides the depth by \<open>scale ** 2\<close>; \<^verbatim>\<open>tf.depth_to_space\<close> itself
  refuses a depth that \<open>scale ** 2\<close> does not divide. \<^verbatim>\<open>Add\<close> needs both inputs of
  one shape.
\<close>

fun layer_shape :: "layer \<Rightarrow> tensor_shape \<Rightarrow> tensor_shape option"
  and layers_shape :: "layer list \<Rightarrow> tensor_shape \<Rightarrow> tensor_shape option" where
  "layer_shape (Conv2D filters kernel_size strides) (h, w, c) =
     (if strides = 0 then None
      else Some ((h + strides - 1) div strides, (w + strides - 1) div strides, filters))"
| "layer_shape BatchNormalization s = Some s"
| "layer_shape PReLU s = Some s"
| "layer_shape LeakyReLU s = Some s"
| "layer_shape (Dense units) (h, w, c) = Some (h, w, units)"
| "layer_shape (SubpixelConv2D scale) (h, w, c) =
     (if scale = 0 \<or> c mod (scale ^ 2) \<noteq> 0 then None
      else Some (h * scale, w * scale, c div (scale ^ 2)))"
| "layer_shape (Residual f) s =
     (case layers_shape f s of
        None \<Rightarrow> None
      | Some s' \<Rightarrow> if s' = s then Some s' else None)"
| "layers_shape [] s = Some s"
| "layers_shape (l # ls) s =
     (case layer_shape l s of
        None \<Rightarrow> None
      | Some s' \<Rightarrow> layers_shape ls s')"

text \<open>\<^verbatim>\<open>residual_block\<close> and \<^verbatim>\<open>upsample\<close>, the two local functions of \<^verbatim>\<open>build_generator\<close>.\<close>

definition residual_block :: layer where
  "residual_block =
     Residual [Conv2D 64 3 1, BatchNormalization, PReLU, Conv2D 64 3 1, BatchNormalization]"

definition upsample :: "nat \<Rightarrow> layer list" where
  "upsample number = [Conv2D 256 3 1, SubpixelConv2D 2, PReLU]"

text \<open>
  \<^verbatim>\<open>build_generator\<close>, on the two attributes of \<^verbatim>\<open>self\<close> it reads. The first residual
  block is applied outright and \<^verbatim>\<open>range(residual_blocks - 1)\<close> adds the others, so
  a count of 0 still gives one block. The post-residual convolution and its
  normalisation are added to \<^verbatim>\<open>x_start\<close>, which closes the outer skip.
\<close>

definition build_generator :: "int \<Rightarrow> nat \<Rightarrow> nat \<Rightarrow> layer list" where
  "build_generator upscaling_factor channels residual_blocks =
     [Conv2D 64 9 1, PReLU,
      Residual (residual_block # replicate (residual_blocks - 1) residual_block
                @ [Conv2D 64 3 1, BatchNormalization])]
     @ upsample 1
     @ (if upscaling_factor > 2 then upsample 2 else [])
     @ (if upscaling_factor > 4 then upsample 3 else [])
     @ [Conv2D channels 9 1]"

text \<open>\<^verbatim>\<open>conv2d_block\<close> and \<^verbatim>\<open>build_discriminator\<close>.\<close>

definition conv2d_block :: "nat \<Rightarrow> nat \<Rightarrow> bool \<Rightarrow> layer list" where
  "conv2d_block filters strides bn =
     [Conv2D filters 3 strides, LeakyReLU] @ (if bn then [BatchNormalization] else [])"

definition build_discriminator :: "nat \<Rightarrow> layer list" where
  "build_discriminator filters =
     conv2d_block filters 1 False
     @ conv2d_block filters 2 True
     @ conv2d_block (filters * 2) 1 True
     @ conv2d_block (filters * 2) 2 True
     @ conv2d_block (filters * 4) 1 True
     @ conv2d_block (filters * 4) 2 True
     @ conv2d_block (filters * 8) 1 True
     @ conv2d_block (filters * 8) 2 True
     @ [Dense (filters * 16), LeakyReLU, Dense 1]"

text \<open>The upsampling stages of a graph: its depth-to-space layers.\<close>

fun is_subpixel :: "layer \<Rightarrow> bool" where
  "is_subpixel (SubpixelConv2D scale) = True"
| "is_subpixel l = False"

definition upsampling_stages :: "layer list \<Rightarrow> nat" where
  "upsampling_stages ls = length (filter is_subpixel ls)"

lemma residual_block_shape: "layer_shape residual_block (h, w, 64) = Some (h, w, 64)"
  by (simp add: residual_block_def)

lemma residual_blocks_shape:
  "layers_shape (replicate n residual_block @ ls) (h, w, 64) = layers_shape ls (h, w, 64)"
  by (induction n) (simp_all add: residual_block_shape)

lemma upsample_shape:
  "layers_shape (upsample number @ ls) (h, w, 64) = layers_shape ls (h * 2, w * 2, 64)"
  by (simp add: upsample_def)

lemma trunk_shape:
  "layers_shape
     ([Conv2D 64 9 1, PReLU,
       Residual (residual_block # replicate n residual_block
                 @ [Conv2D 64 3 1, BatchNormalization])] @ ls) (h, w, c)
   = layers_shape ls (h, w, 64)"
  by (simp add: residual_block_shape residual_blocks_shape)

text \<open>
  C1. For every upscaling factor F in {2, 4, 8}, any channel count and any number of
  residual blocks, the generator graph maps a 3-channel input of spatial size (h, w) to
  an output of spatial size exactly (F * h, F * w). It has log2 F upsampling stages
  (the number k of depth-to-space layers satisfies 2 ^ k = F), and each stage is a
  convolution to 256 channels followed by a depth-to-space of block size 2, which
  doubles both spatial extents.
\<close>

theorem C1_generator_output_shape:
  assumes "F \<in> {2, 4, 8}"
  shows "layers_shape (build_generator F channels residual_blocks) (h, w, 3)
           = Some (nat F * h, nat F * w, channels)
         \<and> 2 ^ upsampling_stages (build_generator F channels residual_blocks) = nat F
         \<and> upsample number = [Conv2D 256 3 1, SubpixelConv2D 2, PReLU]
         \<and> layers_shape (upsample number) (h', w', 64) = Some (2 * h', 2 * w', 64)"
proof -
  have stage: "upsample number = [Conv2D 256 3 1, SubpixelConv2D 2, PReLU]"
    by (simp add: upsample_def)
  have double: "layers_shape (upsample number) (h', w', 64) = Some (2 * h', 2 * w', 64)"
    by (simp add: upsample_def mult.commute)
  have count: "2 ^ upsampling_stages (build_generator F channels residual_blocks) = nat F"
    using assms
    by (auto simp: build_generator_def upsampling_stages_def upsample_def residual_block_def)
  have out: "layers_shape (build_generator F channels residual_blocks) (h, w, 3)
               = Some (nat F * h, nat F * w, channels)"
    using assms
    unfolding build_generator_def append_assoc trunk_shape
    by (auto simp: upsample_shape)
  from out count stage double show ?thesis by simp
qed

theorem C1_generator_output_shape_witness:
  "layers_shape (build_generator 4 3 16) (24, 24, 3) = Some (96, 96, 3)
   \<and> upsampling_stages (build_generator 4 3 16) = 2
   \<and> layers_shape (upsample 1) (24, 24, 64) = Some (48, 48, 64)"
proof -
  have F: "(4::int) \<in> {2, 4, 8}" by simp
  have two: "upsampling_stages (build_generator 4 3 16) = 2"
    by (simp add: build_generator_def upsampling_stages_def upsample_def residual_block_def)
  from C1_generator_output_shape [OF F, of 3 16 24 24 1 24] two
  show ?thesis by simp
qed

section \<open>srgan.py: construction and weight loading\<close>

text \<open>
  A Keras model is its graph and its current weights. The weights are kept abstract
  (\<open>'w\<close>): their initial values are what the Keras initialisers draw, given to
  \<open>SRGAN_init\<close> as \<open>gen_init\<close> and \<open>dis_init\<close>.
\<close>

record 'w network =
  layers :: "layer list"
  weights :: 'w

text \<open>
  The attributes of an \<^verbatim>\<open>SRGAN\<close> object that the construction and the weight loading
  read or write. The discriminator exists only when \<^verbatim>\<open>training_mode\<close> is set. The
  feature extractor and the combined model, also built in training mode, hold no
  attribute that a property below is about and are left out.
\<close>

record 'w SRGAN =
  height_lr :: nat
  width_lr :: nat
  upscaling_factor :: int
  height_hr :: nat
  width_hr :: nat
  channels :: nat
  shape_lr :: tensor_shape
  shape_hr :: tensor_shape
  generator :: "'w network"
  discriminator :: "'w network option"

text \<open>
  \<^verbatim>\<open>__init__\<close>. The check of the upscaling factor raises before any network is built;
  the exception leaves the constructor call without an object, so the failing result
  carries no \<open>SRGAN\<close> value.
\<close>

definition SRGAN_init ::
  "'w \<Rightarrow> 'w \<Rightarrow> nat \<Rightarrow> nat \<Rightarrow> nat \<Rightarrow> int \<Rightarrow> bool \<Rightarrow> py_error + 'w SRGAN" where
  "SRGAN_init gen_init dis_init height_lr' width_lr' channels' upscaling_factor' training_mode =
     (if upscaling_factor' \<notin> set [2, 4, 8] then Inl ValueError
      else
        let height_hr' = height_lr' * nat upscaling_factor';
            width_hr' = width_lr' * nat upscaling_factor'
        in Inr \<lparr>height_lr = height_lr',
                width_lr = width_lr',
                upscaling_factor = upscaling_factor',
                height_hr = height_hr',
                width_hr = width_hr',
                channels = channels',
                shape_lr = (height_lr', width_lr', channels'),
                shape_hr = (height_hr', width_hr', channels'),
                generator = \<lparr>layers = build_generator upscaling_factor' channels' 16,
                             weights = gen_init\<rparr>,
                discriminator =
                  (if training_mode
                   then Some \<lparr>layers = build_discriminator 64, weights = dis_init\<rparr>
                   else None)\<rparr>)"

text \<open>
  Python truthiness of an optional path: \<^verbatim>\<open>None\<close> and the empty string are false.
\<close>

fun truthy :: "string option \<Rightarrow> bool" where
  "truthy None = False"
| "truthy (Some s) = (s \<noteq> [])"

text \<open>
  Keras' \<^verbatim>\<open>Model.load_weights\<close>: the weights stored in the file replace the model's, and
  a file that cannot be read raises. \<open>files\<close> maps a path to the weights stored there.
\<close>

definition Model_load_weights ::
  "(string \<Rightarrow> 'w option) \<Rightarrow> string \<Rightarrow> 'w network \<Rightarrow> py_error + 'w network" where
  "Model_load_weights files filepath m =
     (case files filepath of
        None \<Rightarrow> Inl OSError
      | Some w \<Rightarrow> Inr (m\<lparr>weights := w\<rparr>))"

text \<open>
  \<^verbatim>\<open>load_weights\<close>. The result is the object after the call together with the exception
  that ended it, if any: a failure of the second load leaves the first one done. In
  non-training mode the object has no \<^verbatim>\<open>discriminator\<close> attribute, and reading it raises.
\<close>

definition load_weights ::
  "(string \<Rightarrow> 'w option) \<Rightarrow> string option \<Rightarrow> string option \<Rightarrow> 'w SRGAN
     \<Rightarrow> py_error option \<times> 'w SRGAN" where
  "load_weights files generator_weights discriminator_weights self =
     (case (if truthy generator_weights
            then (case Model_load_weights files (the generator_weights) (generator self) of
                    Inl e \<Rightarrow> (Some e, self)
                  | Inr g \<Rightarrow> (None, self\<lparr>generator := g\<rparr>))
            else (None, self)) of
        (Some e, self1) \<Rightarrow> (Some e, self1)
      | (None, self1) \<Rightarrow>
          if truthy discriminator_weights
          then (case discriminator self1 of
                  None \<Rightarrow> (Some AttributeError, self1)
                | Some d \<Rightarrow>
                    (case Model_load_weights files (the discriminator_weights) d of
                       Inl e \<Rightarrow> (Some e, self1)
                     | Inr d' \<Rightarrow> (None, self1\<lparr>discriminator := Some d'\<rparr>)))
          else (None, self1))"

text \<open>
  C2. Construction fails with the configuration error exactly for the upscaling factors
  outside {2, 4, 8}: for such a factor the constructor returns the error and no object,
  whatever the other arguments; for a factor in {2, 4, 8} it returns an object that holds
  this factor.
\<close>

theorem C2_upscaling_factor_checked:
  "(F \<notin> {2, 4, 8} \<longrightarrow>
      SRGAN_init gen_init dis_init h w c F training_mode = Inl ValueError)
   \<and> (F \<in> {2, 4, 8} \<longrightarrow>
      (\<exists>self. SRGAN_init gen_init dis_init h w c F training_mode = Inr self
              \<and> upscaling_factor self = F))"
  by (auto simp: SRGAN_init_def Let_def)

theorem C2_upscaling_factor_checked_witness:
  "SRGAN_init (0::nat) 0 24 24 3 3 True = Inl ValueError
   \<and> (\<exists>self. SRGAN_init (0::nat) 0 24 24 3 4 True = Inr self \<and> upscaling_factor self = 4)"
proof -
  have bad: "(3::int) \<notin> {2, 4, 8}" and good: "(4::int) \<in> {2, 4, 8}" by simp_all
  from C2_upscaling_factor_checked [of 3 "0::nat" 0 24 24 3 True] bad
  have "SRGAN_init (0::nat) 0 24 24 3 3 True = Inl ValueError" by blast
  moreover from C2_upscaling_factor_checked [of 4 "0::nat" 0 24 24 3 True] good
  have "\<exists>self. SRGAN_init (0::nat) 0 24 24 3 4 True = Inr self \<and> upscaling_factor self = 4"
    by blast
  ultimately show ?thesis by blast
qed

text \<open>
  C9. The two loads are independent. With generator weights only (the discriminator
  argument absent), the call succeeds when the generator file can be read, the generator
  holds the file's weights and the discriminator is the one from before the call, so a
  freshly constructed object keeps its discriminator at the initial weights.
  Symmetrically, with discriminator weights only, on an object that has a discriminator,
  the discriminator holds the file's weights and the generator is unchanged. With both
  absent nothing changes.
\<close>

theorem C9_load_weights_independent:
  "(files g = Some wg \<and> g \<noteq> [] \<longrightarrow>
      load_weights files (Some g) None self
        = (None, self\<lparr>generator := (generator self)\<lparr>weights := wg\<rparr>\<rparr>)
      \<and> discriminator (snd (load_weights files (Some g) None self)) = discriminator self)
   \<and> (files d = Some wd \<and> d \<noteq> [] \<and> discriminator self = Some dm \<longrightarrow>
      load_weights files None (Some d) self
        = (None, self\<lparr>discriminator := Some (dm\<lparr>weights := wd\<rparr>)\<rparr>)
      \<and> generator (snd (load_weights files None (Some d) self)) = generator self)
   \<and> load_weights files None None self = (None, self)
   \<and> (SRGAN_init gen_init dis_init h w c F True = Inr self \<and> files g = Some wg \<and> g \<noteq> [] \<longrightarrow>
      map_option weights (discriminator (snd (load_weights files (Some g) None self)))
        = Some dis_init)"
  by (auto simp: load_weights_def Model_load_weights_def SRGAN_init_def Let_def
           split: if_splits)

definition example_weight_files :: "string \<Rightarrow> nat option" where
  "example_weight_files path =
     (if path = ''gen.h5'' then Some 7 else if path = ''dis.h5'' then Some 9 else None)"

theorem C9_load_weights_independent_witness:
  "\<exists>self. SRGAN_init (1::nat) 2 24 24 3 4 True = Inr self
     \<and> weights (generator (snd (load_weights example_weight_files (Some ''gen.h5'') None self))) = 7
     \<and> fst (load_weights example_weight_files (Some ''gen.h5'') None self) = None
     \<and> map_option weights
          (discriminator (snd (load_weights example_weight_files (Some ''gen.h5'') None self)))
        = Some 2
     \<and> map_option weights
          (discriminator (snd (load_weights example_weight_files None (Some ''dis.h5'') self)))
        = Some 9
     \<and> generator (snd (load_weights example_weight_files None (Some ''dis.h5'') self))
        = generator self"
proof -
  obtain self where init: "SRGAN_init (1::nat) 2 24 24 3 4 True = Inr self"
    by (simp add: SRGAN_init_def Let_def)
  then have dis: "discriminator self = Some \<lparr>layers = build_discriminator 64, weights = 2\<rparr>"
    by (auto simp: SRGAN_init_def Let_def)
  have g: "example_weight_files ''gen.h5'' = Some 7" and d: "example_weight_files ''dis.h5'' = Some 9"
    by (simp_all add: example_weight_files_def)
  from C9_load_weights_independent
         [of example_weight_files "''gen.h5''" 7 self "''dis.h5''" 9
             "\<lparr>layers = build_discriminator 64, weights = 2\<rparr>" 1 2 24 24 3 4]
       init dis g d
  show ?thesis by (intro exI [of _ self]) simp
qed

section \<open>util.py: the DataLoader\<close>

subsection \<open>Library functions the loader calls\<close>

text \<open>
  Indexing a Python list: a negative index counts from the end, an index outside the list
  raises \<^verbatim>\<open>IndexError\<close>.
\<close>

definition py_index :: "'a list \<Rightarrow> int \<Rightarrow> py_error + 'a" where
  "py_index xs i =
     (if 0 \<le> i \<and> i < int (length xs) then Inr (xs ! nat i)
      else if i < 0 \<and> - int (length xs) \<le> i then Inr (xs ! nat (i + int (length xs)))
      else Inl IndexError)"

text \<open>
  \<^verbatim>\<open>int(a / b)\<close> on integers: true division, then truncation towards zero. (The float
  quotient is exact for the sizes of images and pools; its rounding beyond 2 ** 53 is not
  modelled.)
\<close>

definition int_truediv :: "int \<Rightarrow> int \<Rightarrow> py_error + int" where
  "int_truediv a b =
     (if b = 0 then Inl ZeroDivisionError
      else Inr (sgn a * sgn b * (\<bar>a\<bar> div \<bar>b\<bar>)))"

text \<open>
  The global random state is a stream of raw draws; each call of a random function reads
  the head and leaves the tail. \<^verbatim>\<open>np.random.randint(low, high)\<close> raises when
  \<open>low \<ge> high\<close> and otherwise returns a value of \<open>[low, high)\<close>;
  \<^verbatim>\<open>random.choice(seq)\<close> returns the element at a drawn index below \<open>len(seq)\<close>.
\<close>

type_synonym random_state = "nat \<Rightarrow> nat"

definition randint :: "int \<Rightarrow> int \<Rightarrow> random_state \<Rightarrow> (py_error + int) \<times> random_state" where
  "randint low high rs =
     (if low \<ge> high then (Inl ValueError, rs)
      else (Inr (low + int (rs 0) mod (high - low)), (\<lambda>n. rs (Suc n))))"

definition choice :: "'a list \<Rightarrow> random_state \<Rightarrow> (py_error + 'a) \<times> random_state" where
  "choice seq rs =
     (if seq = [] then (Inl IndexError, rs)
      else (Inr (seq ! (rs 0 mod length seq)), (\<lambda>n. rs (Suc n))))"

text \<open>\<^verbatim>\<open>str.lower\<close> on the ASCII letters; other bytes are kept.\<close>

definition lower_char :: "char \<Rightarrow> char" where
  "lower_char c =
     (case map_of (zip ''ABCDEFGHIJKLMNOPQRSTUVWXYZ'' ''abcdefghijklmnopqrstuvwxyz'') c of
        Some l \<Rightarrow> l
      | None \<Rightarrow> c)"

definition lower :: "string \<Rightarrow> string" where
  "lower s = map lower_char s"

text \<open>The substring test \<^verbatim>\<open>needle in haystack\<close> of Python strings.\<close>

fun str_contains :: "string \<Rightarrow> string \<Rightarrow> bool" where
  "str_contains needle [] = (needle = [])"
| "str_contains needle (c # cs) =
     (take (length needle) (c # cs) = needle \<or> str_contains needle cs)"

text \<open>\<^verbatim>\<open>os.path.join\<close> of two components on a POSIX system.\<close>

definition os_path_join :: "string \<Rightarrow> string \<Rightarrow> string" where
  "os_path_join a b =
     (if b \<noteq> [] \<and> hd b = CHR ''/'' then b
      else if a = [] \<or> last a = CHR ''/'' then a @ b
      else a @ ''/'' @ b)"

text \<open>
  A directory: the names of its files and its subdirectories by name. \<^verbatim>\<open>os.walk\<close> lists
  the directory itself first and then walks each subdirectory, giving every directory's
  path with its file names.
\<close>

datatype dir_tree = Dir "string list" "(string \<times> dir_tree) list"

fun os_walk :: "string \<Rightarrow> dir_tree \<Rightarrow> (string \<times> string list) list" where
  "os_walk dirpath (Dir filenames subdirs) =
     (dirpath, filenames)
     # concat (map (\<lambda>sub. os_walk (os_path_join dirpath (fst sub)) (snd sub)) subdirs)"

text \<open>
  Pillow. The resampling filters; the horizontal flip; and \<^verbatim>\<open>Image.resize\<close>, which
  rejects a target size below 1 x 1 and otherwise returns an image of exactly the
  requested (width, height). The arithmetic of the filters is a parameter \<open>interp\<close>: it
  gives the pixel of the result at each position.
\<close>

datatype resample = NEAREST | BILINEAR | BICUBIC | LANCZOS

type_synonym resize_kernel =
  "resample \<Rightarrow> uint8 ndarray \<Rightarrow> nat \<times> nat \<Rightarrow> nat \<Rightarrow> nat \<Rightarrow> uint8 pixel"

definition resize ::
  "resize_kernel \<Rightarrow> uint8 ndarray \<Rightarrow> int \<times> int \<Rightarrow> resample \<Rightarrow> py_error + uint8 ndarray" where
  "resize interp img size' method =
     (case size' of (w, h) \<Rightarrow>
        if w < 1 \<or> h < 1 then Inl ValueError
        else Inr \<lparr>rows = nat h, cols = nat w, px = interp method img (nat w, nat h)\<rparr>)"

definition flip_left_right :: "'a ndarray \<Rightarrow> 'a ndarray" where
  "flip_left_right img =
     \<lparr>rows = rows img, cols = cols img, px = (\<lambda>i j. px img i (cols img - 1 - j))\<rparr>"

text \<open>
  The numpy slice \<^verbatim>\<open>img[y0:y1, x0:x1, :]\<close> for non-negative bounds: bounds beyond the
  array are clipped.
\<close>

definition np_slice :: "'a ndarray \<Rightarrow> nat \<Rightarrow> nat \<Rightarrow> nat \<Rightarrow> nat \<Rightarrow> 'a ndarray" where
  "np_slice img y0 y1 x0 x1 =
     \<lparr>rows = min y1 (rows img) - min y0 (rows img),
      cols = min x1 (cols img) - min x0 (cols img),
      px = (\<lambda>i j. px img (y0 + i) (x0 + j))\<rparr>"

text \<open>
  The files: what \<^verbatim>\<open>Image.open(path)\<close> followed by \<^verbatim>\<open>convert('RGB')\<close> and
  \<^verbatim>\<open>np.array\<close> gives for a path, the decoded image or the exception of a file that is
  missing, unreadable or not an image.
\<close>

type_synonym image_files = "string \<Rightarrow> py_error + uint8 ndarray"

subsection \<open>Construction\<close>

text \<open>
  The attributes of a \<^verbatim>\<open>DataLoader\<close>. Sizes and counts are natural numbers; the scale is
  an integer, as the upscaling factor handed over by \<^verbatim>\<open>SRGAN\<close>.
\<close>

record DataLoader =
  datapath :: string
  batch_size :: nat
  height_hr :: nat
  height_lr :: int
  width_hr :: nat
  width_lr :: int
  scale :: int
  crops_per_image :: nat
  total_imgs :: nat
  options :: "resample list"
  img_paths :: "string list"

text \<open>The filter of the directory walk: one of the three words occurs in the lower-cased name.\<close>

definition is_image_name :: "string \<Rightarrow> bool" where
  "is_image_name f = list_ex (\<lambda>filetype. str_contains filetype (lower f)) [''jpeg'', ''png'', ''jpg'']"

text \<open>
  \<^verbatim>\<open>__init__\<close>. \<open>tree\<close> is the directory found at \<open>datapath\<close>, \<open>None\<close> when there is
  none (\<^verbatim>\<open>os.walk\<close> then yields nothing). A scale of 0 raises in the computation of
  \<^verbatim>\<open>height_lr\<close>.
\<close>

definition DataLoader_init ::
  "dir_tree option \<Rightarrow> string \<Rightarrow> nat \<Rightarrow> nat \<Rightarrow> nat \<Rightarrow> int \<Rightarrow> nat \<Rightarrow> py_error + DataLoader" where
  "DataLoader_init tree datapath' batch_size' height_hr' width_hr' scale' crops_per_image' =
     (case int_truediv (int height_hr') scale' of
        Inl e \<Rightarrow> Inl e
      | Inr height_lr' \<Rightarrow>
     (case int_truediv (int width_hr') scale' of
        Inl e \<Rightarrow> Inl e
      | Inr width_lr' \<Rightarrow>
        let walked = (case tree of None \<Rightarrow> [] | Some t \<Rightarrow> os_walk datapath' t);
            found = concat (map (\<lambda>(dirpath, filenames).
                                   map (os_path_join dirpath) (filter is_image_name filenames))
                                walked)
        in Inr \<lparr>datapath = datapath',
                batch_size = batch_size',
                height_hr = height_hr',
                height_lr = height_lr',
                width_hr = width_hr',
                width_lr = width_lr',
                scale = scale',
                crops_per_image = crops_per_image',
                total_imgs = length found,
                options = [NEAREST, BILINEAR, BICUBIC, LANCZOS],
                img_paths = found\<rparr>))"

text \<open>\<^verbatim>\<open>__len__\<close>: \<^verbatim>\<open>int(self.total_imgs / float(self.batch_size))\<close>.\<close>

definition DataLoader_len :: "DataLoader \<Rightarrow> py_error + int" where
  "DataLoader_len self = int_truediv (int (total_imgs self)) (int (batch_size self))"

subsection \<open>Loading, cropping and downscaling one image\<close>

text \<open>
  \<^verbatim>\<open>random_crop\<close>. The assertion on the channel count holds by the type of an image. An
  image narrower or lower than the crop makes \<^verbatim>\<open>randint\<close> raise.
\<close>

definition random_crop ::
  "uint8 ndarray \<Rightarrow> nat \<times> nat \<Rightarrow> random_state \<Rightarrow> (py_error + uint8 ndarray) \<times> random_state" where
  "random_crop img random_crop_size rs =
     (case random_crop_size of (dy, dx) \<Rightarrow>
        (case randint 0 (int (cols img) - int dx + 1) rs of
           (Inl e, rs1) \<Rightarrow> (Inl e, rs1)
         | (Inr x, rs1) \<Rightarrow>
             (case randint 0 (int (rows img) - int dy + 1) rs1 of
                (Inl e, rs2) \<Rightarrow> (Inl e, rs2)
              | (Inr y, rs2) \<Rightarrow>
                  (Inr (np_slice img (nat y) (nat y + dy) (nat x) (nat x + dx)), rs2))))"

text \<open>\<^verbatim>\<open>load_img\<close>: in training mode a draw above 3 out of 0..7 flips the image.\<close>

definition load_img ::
  "image_files \<Rightarrow> string \<Rightarrow> bool \<Rightarrow> random_state \<Rightarrow> (py_error + uint8 ndarray) \<times> random_state" where
  "load_img files path training rs =
     (case files path of
        Inl e \<Rightarrow> (Inl e, rs)
      | Inr img \<Rightarrow>
          if training
          then (case randint 0 8 rs of
                  (Inl e, rs1) \<Rightarrow> (Inl e, rs1)
                | (Inr flag, rs1) \<Rightarrow> (Inr (if flag > 3 then flip_left_right img else img), rs1))
          else (Inr img, rs))"

text \<open>
  The crops of one image in training mode: \<^verbatim>\<open>crops_per_image\<close> calls of
  \<^verbatim>\<open>random_crop\<close>, the first exception ending the list.
\<close>

fun random_crops ::
  "uint8 ndarray \<Rightarrow> nat \<times> nat \<Rightarrow> nat \<Rightarrow> random_state
     \<Rightarrow> (py_error + uint8 ndarray list) \<times> random_state" where
  "random_crops img sz 0 rs = (Inr [], rs)"
| "random_crops img sz (Suc n) rs =
     (case random_crop img sz rs of
        (Inl e, rs1) \<Rightarrow> (Inl e, rs1)
      | (Inr c, rs1) \<Rightarrow>
          (case random_crops img sz n rs1 of
             (Inl e, rs2) \<Rightarrow> (Inl e, rs2)
           | (Inr cs, rs2) \<Rightarrow> (Inr (c # cs), rs2)))"

text \<open>
  Lines 151 to 157 of \<^verbatim>\<open>load_batch\<close>: the filter is bicubic when the \<^verbatim>\<open>bicubic\<close> flag
  is set and a random choice among \<^verbatim>\<open>self.options\<close> otherwise; the crop is resized to
  (width / scale, height / scale) and both images are scaled. The result is the pair
  (high resolution, low resolution).
\<close>

definition select_method ::
  "DataLoader \<Rightarrow> bool \<Rightarrow> random_state \<Rightarrow> (py_error + resample) \<times> random_state" where
  "select_method self bicubic rs = (if bicubic then (Inr BICUBIC, rs) else choice (options self) rs)"

definition downscale ::
  "DataLoader \<Rightarrow> resize_kernel \<Rightarrow> bool \<Rightarrow> uint8 ndarray \<Rightarrow> random_state
     \<Rightarrow> (py_error + rat ndarray \<times> rat ndarray) \<times> random_state" where
  "downscale self interp bicubic img_hr rs =
     (case select_method self bicubic rs of
        (Inl e, rs1) \<Rightarrow> (Inl e, rs1)
      | (Inr method, rs1) \<Rightarrow>
          (case int_truediv (int (cols img_hr)) (scale self) of
             Inl e \<Rightarrow> (Inl e, rs1)
           | Inr w \<Rightarrow>
          (case int_truediv (int (rows img_hr)) (scale self) of
             Inl e \<Rightarrow> (Inl e, rs1)
           | Inr h \<Rightarrow>
          (case resize interp img_hr (w, h) method of
             Inl e \<Rightarrow> (Inl e, rs1)
           | Inr img_lr \<Rightarrow>
               (Inr (scale_hr_imgs (as_float img_hr), scale_lr_imgs (as_float img_lr)), rs1)))))"

subsection \<open>load_batch\<close>

text \<open>
  The local variables of \<^verbatim>\<open>load_batch\<close> that its loop changes, with the random state.
\<close>

record batch_state =
  cur_idx :: int
  imgs_hr :: "rat ndarray list"
  imgs_lr :: "rat ndarray list"
  rand :: random_state

text \<open>
  Python truthiness of the argument \<^verbatim>\<open>img_paths\<close>: \<^verbatim>\<open>None\<close> and the empty list are
  false.
\<close>

fun given :: "string list option \<Rightarrow> bool" where
  "given None = False"
| "given (Some ps) = (ps \<noteq> [])"

text \<open>
  The test that stands at the head of the loop and again before each crop is downscaled.
  In indexed mode (\<^verbatim>\<open>img_paths is None\<close>) it first wraps a cursor that has reached the
  end of the pool to 0, then asks for \<^verbatim>\<open>batch_size\<close> pairs; with explicit paths it asks
  for exactly as many pairs as paths. The result says whether to \<^verbatim>\<open>break\<close>, with the
  state after the wrap.
\<close>

definition check_done :: "DataLoader \<Rightarrow> string list option \<Rightarrow> batch_state \<Rightarrow> bool \<times> batch_state" where
  "check_done self img_paths' st =
     (case img_paths' of
        None \<Rightarrow>
          (if cur_idx st \<ge> int (total_imgs self)
           then (length (imgs_hr st) \<ge> batch_size self, st\<lparr>cur_idx := 0\<rparr>)
           else (length (imgs_hr st) \<ge> batch_size self, st))
      | Some ps \<Rightarrow> (length (imgs_hr st) = length ps, st))"

text \<open>
  The inner loop \<^verbatim>\<open>for img_hr in img_crops\<close>: it stops at the first crop that finds the
  batch complete and at the first exception, which it hands on with the state reached.
\<close>

fun downscale_crops ::
  "DataLoader \<Rightarrow> resize_kernel \<Rightarrow> string list option \<Rightarrow> bool \<Rightarrow> uint8 ndarray list
     \<Rightarrow> batch_state \<Rightarrow> py_error option \<times> batch_state" where
  "downscale_crops self interp img_paths' bicubic [] st = (None, st)"
| "downscale_crops self interp img_paths' bicubic (img_hr # img_crops) st =
     (if fst (check_done self img_paths' st) then (None, snd (check_done self img_paths' st))
      else
        (case downscale self interp bicubic img_hr (rand (snd (check_done self img_paths' st))) of
           (Inl e, rs) \<Rightarrow> (Some e, (snd (check_done self img_paths' st))\<lparr>rand := rs\<rparr>)
         | (Inr (hr, lr), rs) \<Rightarrow>
             downscale_crops self interp img_paths' bicubic img_crops
               ((snd (check_done self img_paths' st))
                  \<lparr>imgs_hr := imgs_hr st @ [hr], imgs_lr := imgs_lr st @ [lr], rand := rs\<rparr>)))"

text \<open>
  The body of the \<^verbatim>\<open>try\<close> statement: the exception raised, if any, and the state at that
  point.
\<close>

definition try_body ::
  "DataLoader \<Rightarrow> image_files \<Rightarrow> resize_kernel \<Rightarrow> string list option \<Rightarrow> bool \<Rightarrow> bool
     \<Rightarrow> batch_state \<Rightarrow> py_error option \<times> batch_state" where
  "try_body self files interp img_paths' training bicubic st =
     (case py_index (if given img_paths' then the img_paths' else DataLoader.img_paths self)
                    (cur_idx st) of
        Inl e \<Rightarrow> (Some e, st)
      | Inr path \<Rightarrow>
          (case load_img files path training (rand st) of
             (Inl e, rs) \<Rightarrow> (Some e, st\<lparr>rand := rs\<rparr>)
           | (Inr img_hr, rs) \<Rightarrow>
               (case (if training
                      then random_crops img_hr (height_hr self, width_hr self)
                             (crops_per_image self) rs
                      else (Inr [img_hr], rs)) of
                  (Inl e, rs1) \<Rightarrow> (Some e, st\<lparr>rand := rs1\<rparr>)
                | (Inr img_crops, rs1) \<Rightarrow>
                    downscale_crops self interp img_paths' bicubic img_crops (st\<lparr>rand := rs1\<rparr>))))"

text \<open>
  One pass of the \<^verbatim>\<open>while True\<close> body after the test: \<^verbatim>\<open>except Exception: pass\<close>
  drops the exception, \<^verbatim>\<open>finally\<close> moves the cursor on.
\<close>

definition iteration ::
  "DataLoader \<Rightarrow> image_files \<Rightarrow> resize_kernel \<Rightarrow> string list option \<Rightarrow> bool \<Rightarrow> bool
     \<Rightarrow> batch_state \<Rightarrow> batch_state" where
  "iteration self files interp img_paths' training bicubic st =
     (case try_body self files interp img_paths' training bicubic st of
        (raised, st') \<Rightarrow> st'\<lparr>cur_idx := cur_idx st' + 1\<rparr>)"

text \<open>
  The loop. It has no bound in the source, so its model returns an option: \<open>None\<close> is a
  loop that never leaves.
\<close>

partial_function (option) load_batch_loop ::
  "DataLoader \<Rightarrow> image_files \<Rightarrow> resize_kernel \<Rightarrow> string list option \<Rightarrow> bool \<Rightarrow> bool
     \<Rightarrow> batch_state \<Rightarrow> batch_state option" where
  "load_batch_loop self files interp img_paths' training bicubic st =
     (if fst (check_done self img_paths' st) then Some (snd (check_done self img_paths' st))
      else load_batch_loop self files interp img_paths' training bicubic
             (iteration self files interp img_paths' training bicubic
                (snd (check_done self img_paths' st))))"

text \<open>
  \<^verbatim>\<open>load_batch\<close>: the state before the loop, and the call itself, which returns
  \<^verbatim>\<open>(imgs_lr, imgs_hr)\<close>. \<^verbatim>\<open>__getitem__\<close> is \<^verbatim>\<open>load_batch(idx=idx)\<close> with the defaults
  \<^verbatim>\<open>img_paths=None, training=True, bicubic=False\<close>.
\<close>

definition load_batch_start :: "DataLoader \<Rightarrow> random_state \<Rightarrow> int \<Rightarrow> string list option \<Rightarrow> batch_state" where
  "load_batch_start self rs idx img_paths' =
     \<lparr>cur_idx = (if \<not> given img_paths' then idx * int (batch_size self) else 0),
      imgs_hr = [], imgs_lr = [], rand = rs\<rparr>"

definition load_batch ::
  "DataLoader \<Rightarrow> image_files \<Rightarrow> resize_kernel \<Rightarrow> random_state \<Rightarrow> int \<Rightarrow> string list option
     \<Rightarrow> bool \<Rightarrow> bool \<Rightarrow> (rat ndarray list \<times> rat ndarray list) option" where
  "load_batch self files interp rs idx img_paths' training bicubic =
     map_option (\<lambda>st. (imgs_lr st, imgs_hr st))
       (load_batch_loop self files interp img_paths' training bicubic
          (load_batch_start self rs idx img_paths'))"

definition getitem ::
  "DataLoader \<Rightarrow> image_files \<Rightarrow> resize_kernel \<Rightarrow> random_state \<Rightarrow> int
     \<Rightarrow> (rat ndarray list \<times> rat ndarray list) option" where
  "getitem self files interp rs idx = load_batch self files interp rs idx None True False"

section \<open>The candidate pool\<close>

text \<open>
  The extension of a file name, as the specification uses the word: the text after the
  last dot, empty when the name has no dot. A name has an image extension when its
  lower-cased extension is one of the three words.
\<close>

definition extension :: "string \<Rightarrow> string" where
  "extension f =
     (if CHR ''.'' \<in> set f then rev (takeWhile (\<lambda>c. c \<noteq> CHR ''.'') (rev f)) else [])"

definition has_image_extension :: "string \<Rightarrow> bool" where
  "has_image_extension f = (lower (extension f) \<in> set [''jpeg'', ''jpg'', ''png''])"

lemma str_contains_iff: "str_contains needle hay \<longleftrightarrow> (\<exists>pre post. hay = pre @ needle @ post)"
proof (induction hay)
  case Nil
  then show ?case by auto
next
  case (Cons c cs)
  have front: "take (length needle) (c # cs) = needle \<longleftrightarrow> (\<exists>post. c # cs = needle @ post)"
  proof
    assume "take (length needle) (c # cs) = needle"
    then have "c # cs = needle @ drop (length needle) (c # cs)"
      by (metis append_take_drop_id)
    then show "\<exists>post. c # cs = needle @ post" ..
  next
    assume "\<exists>post. c # cs = needle @ post"
    then show "take (length needle) (c # cs) = needle" by auto
  qed
  show ?case
  proof
    assume "str_contains needle (c # cs)"
    then consider "\<exists>post. c # cs = needle @ post" | "str_contains needle cs"
      using front by auto
    then show "\<exists>pre post. c # cs = pre @ needle @ post"
    proof cases
      case 1
      then obtain post where "c # cs = [] @ needle @ post" by auto
      then show ?thesis by blast
    next
      case 2
      with Cons.IH obtain pre post where "cs = pre @ needle @ post" by blast
      then have "c # cs = (c # pre) @ needle @ post" by simp
      then show ?thesis by blast
    qed
  next
    assume "\<exists>pre post. c # cs = pre @ needle @ post"
    then obtain pre post where eq: "c # cs = pre @ needle @ post" by blast
    note IH = Cons.IH
    show "str_contains needle (c # cs)"
    proof (cases pre)
      case Nil
      with eq have "\<exists>post. c # cs = needle @ post" by auto
      with front have "take (length needle) (c # cs) = needle" by blast
      then show ?thesis by (simp only: str_contains.simps simp_thms)
    next
      case (Cons a pre')
      with eq have "cs = pre' @ needle @ post" by simp
      with IH have "str_contains needle cs" by blast
      then show ?thesis by simp
    qed
  qed
qed

lemma extension_is_suffix: "\<exists>stem. f = stem @ extension f"
proof (cases "CHR ''.'' \<in> set f")
  case True
  have "rev f = takeWhile (\<lambda>c. c \<noteq> CHR ''.'') (rev f) @ dropWhile (\<lambda>c. c \<noteq> CHR ''.'') (rev f)"
    by simp
  then have "f = rev (dropWhile (\<lambda>c. c \<noteq> CHR ''.'') (rev f))
                 @ rev (takeWhile (\<lambda>c. c \<noteq> CHR ''.'') (rev f))"
    by (metis rev_append rev_rev_ident)
  with True show ?thesis unfolding extension_def by auto
next
  case False
  then show ?thesis by (simp add: extension_def)
qed

lemma image_extension_is_image_name:
  assumes "has_image_extension f"
  shows "is_image_name f"
proof -
  obtain stem where f: "f = stem @ extension f"
    using extension_is_suffix by blast
  have "lower f = lower stem @ lower (extension f) @ []"
    by (subst f) (simp add: lower_def)
  then have "str_contains (lower (extension f)) (lower f)"
    unfolding str_contains_iff by blast
  with assms show ?thesis
    unfolding has_image_extension_def is_image_name_def list_ex_iff by auto
qed

lemma pool_iff:
  assumes init: "DataLoader_init tree datapath' B hh wh F cpi = Inr self"
  shows "p \<in> set (DataLoader.img_paths self) \<longleftrightarrow>
           (\<exists>t dirpath filenames f.
              tree = Some t \<and> (dirpath, filenames) \<in> set (os_walk datapath' t)
              \<and> f \<in> set filenames \<and> is_image_name f \<and> p = os_path_join dirpath f)"
proof -
  define walked where "walked = (case tree of None \<Rightarrow> [] | Some t \<Rightarrow> os_walk datapath' t)"
  from init have "DataLoader.img_paths self =
       concat (map (\<lambda>(dirpath, filenames).
                      map (os_path_join dirpath) (filter is_image_name filenames)) walked)"
    by (auto simp: DataLoader_init_def Let_def walked_def split: sum.splits)
  then have "p \<in> set (DataLoader.img_paths self) \<longleftrightarrow>
      (\<exists>dirpath filenames f. (dirpath, filenames) \<in> set walked
              \<and> f \<in> set filenames \<and> is_image_name f \<and> p = os_path_join dirpath f)"
    by fastforce
  also have "\<dots> \<longleftrightarrow>
      (\<exists>t dirpath filenames f.
         tree = Some t \<and> (dirpath, filenames) \<in> set (os_walk datapath' t)
         \<and> f \<in> set filenames \<and> is_image_name f \<and> p = os_path_join dirpath f)"
    by (cases tree) (auto simp: walked_def)
  finally show ?thesis .
qed

lemma init_total_imgs:
  "DataLoader_init tree datapath' B hh wh F cpi = Inr self
   \<Longrightarrow> total_imgs self = length (DataLoader.img_paths self)"
  by (auto simp: DataLoader_init_def Let_def split: sum.splits)

lemma is_image_name_iff:
  "is_image_name f \<longleftrightarrow>
     (\<exists>filetype pre post. filetype \<in> {''jpeg'', ''png'', ''jpg''} \<and> lower f = pre @ filetype @ post)"
proof -
  have words: "set [''jpeg'', ''png'', ''jpg''] = {''jpeg'', ''png'', ''jpg''}"
    by (simp only: list.set)
  show ?thesis
    unfolding is_image_name_def list_ex_iff str_contains_iff words by blast
qed

definition example_tree :: dir_tree where
  "example_tree =
     Dir [''notes.png.txt'', ''a.JPG'', ''b.gif''] [(''sub'', Dir [''c.jpeg''] [])]"

text \<open>
  C4, as the claim states it, fails. The walk keeps a file when one of the words jpeg, png,
  jpg occurs anywhere in its lower-cased name: the file \<^verbatim>\<open>notes.png.txt\<close>, whose
  extension is txt, is in the pool.
\<close>

theorem C4_pool_counterexample:
  "map_sum id DataLoader.img_paths (DataLoader_init (Some example_tree) ''data'' 4 64 64 4 1)
     = Inr [''data/notes.png.txt'', ''data/a.JPG'', ''data/sub/c.jpeg'']
   \<and> \<not> has_image_extension ''notes.png.txt''"
  by (simp add: DataLoader_init_def int_truediv_def Let_def os_path_join_def is_image_name_def
        lower_def lower_char_def example_tree_def has_image_extension_def extension_def)

text \<open>
  C4, amended. The pool, fixed at construction by one recursive walk, holds exactly the
  joined paths of the files under the root whose lower-cased name contains jpeg, png or
  jpg as a substring. Every file under the root whose extension is one of the three
  words, in any letter case, is therefore in the pool; the converse does not hold. The
  stored count is the length of the pool.
\<close>

theorem C4_pool_by_substring:
  assumes init: "DataLoader_init tree datapath' B hh wh F cpi = Inr self"
  shows "(p \<in> set (DataLoader.img_paths self) \<longleftrightarrow>
            (\<exists>t dirpath filenames f filetype pre post.
               tree = Some t \<and> (dirpath, filenames) \<in> set (os_walk datapath' t)
               \<and> f \<in> set filenames \<and> filetype \<in> {''jpeg'', ''png'', ''jpg''}
               \<and> lower f = pre @ filetype @ post \<and> p = os_path_join dirpath f))
         \<and> (tree = Some t \<and> (dirpath, filenames) \<in> set (os_walk datapath' t)
              \<and> f \<in> set filenames \<and> has_image_extension f
            \<longrightarrow> os_path_join dirpath f \<in> set (DataLoader.img_paths self))
         \<and> total_imgs self = length (DataLoader.img_paths self)"
proof (intro conjI impI)
  show "p \<in> set (DataLoader.img_paths self) \<longleftrightarrow>
            (\<exists>t dirpath filenames f filetype pre post.
               tree = Some t \<and> (dirpath, filenames) \<in> set (os_walk datapath' t)
               \<and> f \<in> set filenames \<and> filetype \<in> {''jpeg'', ''png'', ''jpg''}
               \<and> lower f = pre @ filetype @ post \<and> p = os_path_join dirpath f)"
    unfolding pool_iff [OF init] is_image_name_iff by blast
next
  assume "tree = Some t \<and> (dirpath, filenames) \<in> set (os_walk datapath' t)
            \<and> f \<in> set filenames \<and> has_image_extension f"
  then show "os_path_join dirpath f \<in> set (DataLoader.img_paths self)"
    unfolding pool_iff [OF init] using image_extension_is_image_name by blast
next
  show "total_imgs self = length (DataLoader.img_paths self)"
    using init by (rule init_total_imgs)
qed

theorem C4_pool_by_substring_witness:
  "\<exists>self. DataLoader_init (Some example_tree) ''data'' 4 64 64 4 1 = Inr self
     \<and> ''data/a.JPG'' \<in> set (DataLoader.img_paths self)
     \<and> total_imgs self = length (DataLoader.img_paths self)"
proof -
  obtain self where init: "DataLoader_init (Some example_tree) ''data'' 4 64 64 4 1 = Inr self"
    by (simp add: DataLoader_init_def int_truediv_def Let_def)
  have walk: "(''data'', [''notes.png.txt'', ''a.JPG'', ''b.gif'']) \<in> set (os_walk ''data'' example_tree)"
    by (simp add: example_tree_def)
  have ext: "has_image_extension ''a.JPG''"
    by (simp add: has_image_extension_def extension_def lower_def lower_char_def)
  have join: "os_path_join ''data'' ''a.JPG'' = ''data/a.JPG''"
    by (simp add: os_path_join_def)
  note inst = C4_pool_by_substring
         [OF init, of "''data/a.JPG''" example_tree "''data''"
            "[''notes.png.txt'', ''a.JPG'', ''b.gif'']" "''a.JPG''"]
  from inst [THEN conjunct2, THEN conjunct1] walk ext
  have "os_path_join ''data'' ''a.JPG'' \<in> set (DataLoader.img_paths self)"
    by simp
  with join inst [THEN conjunct2, THEN conjunct2]
  have "''data/a.JPG'' \<in> set (DataLoader.img_paths self)
        \<and> total_imgs self = length (DataLoader.img_paths self)"
    by simp
  with init show ?thesis by blast
qed

section \<open>Properties of the steps of load_batch\<close>

lemma fst_check_done_None:
  "fst (check_done self None st) = (batch_size self \<le> length (imgs_hr st))"
  by (simp add: check_done_def)

lemma snd_check_done_None:
  "snd (check_done self None st) =
     (if int (total_imgs self) \<le> cur_idx st then st\<lparr>cur_idx := 0\<rparr> else st)"
  by (simp add: check_done_def)

lemma check_done_Some:
  "check_done self (Some ps) st = (length (imgs_hr st) = length ps, st)"
  by (simp add: check_done_def)

lemma int_truediv_pos:
  "0 < b \<Longrightarrow> int_truediv (int a) b = Inr (int a div b)"
  by (cases "a = 0") (simp_all add: int_truediv_def)

lemma randint_ok:
  assumes "low < high"
  shows "\<exists>v. randint low high rs = (Inr v, (\<lambda>n. rs (Suc n))) \<and> low \<le> v \<and> v < high"
proof -
  from assms have "0 \<le> int (rs 0) mod (high - low)" "int (rs 0) mod (high - low) < high - low"
    by simp_all
  then have "low \<le> low + int (rs 0) mod (high - low)" "low + int (rs 0) mod (high - low) < high"
    by linarith+
  with assms show ?thesis by (simp add: randint_def)
qed

lemma randint_fails:
  "high \<le> low \<Longrightarrow> randint low high rs = (Inl ValueError, rs)"
  by (simp add: randint_def)

lemma random_crop_ok:
  assumes "dy \<le> rows img" "dx \<le> cols img"
  shows "\<exists>c rs'. random_crop img (dy, dx) rs = (Inr c, rs') \<and> rows c = dy \<and> cols c = dx"
proof -
  from assms obtain x where x: "randint 0 (int (cols img) - int dx + 1) rs = (Inr x, (\<lambda>n. rs (Suc n)))"
      "0 \<le> x" "x < int (cols img) - int dx + 1"
    using randint_ok [of 0 "int (cols img) - int dx + 1" rs] by auto
  from assms obtain y where y: "randint 0 (int (rows img) - int dy + 1) (\<lambda>n. rs (Suc n)) = (Inr y, (\<lambda>n. rs (Suc (Suc n))))"
      "0 \<le> y" "y < int (rows img) - int dy + 1"
    using randint_ok [of 0 "int (rows img) - int dy + 1" "\<lambda>n. rs (Suc n)"] by auto
  from x y have "nat y + dy \<le> rows img" "nat x + dx \<le> cols img" by linarith+
  then have "rows (np_slice img (nat y) (nat y + dy) (nat x) (nat x + dx)) = dy"
     "cols (np_slice img (nat y) (nat y + dy) (nat x) (nat x + dx)) = dx"
    by (simp_all add: np_slice_def min_def)
  with x(1) y(1) show ?thesis by (simp add: random_crop_def)
qed

lemma random_crop_small:
  assumes "rows img < dy \<or> cols img < dx"
  shows "\<exists>e rs'. random_crop img (dy, dx) rs = (Inl e, rs')"
proof (cases "cols img < dx")
  case True
  then have "randint 0 (int (cols img) - int dx + 1) rs = (Inl ValueError, rs)"
    by (intro randint_fails) simp
  then show ?thesis by (simp add: random_crop_def)
next
  case False
  with assms have small: "rows img < dy" by simp
  from False obtain x where x: "randint 0 (int (cols img) - int dx + 1) rs = (Inr x, (\<lambda>n. rs (Suc n)))"
    using randint_ok [of 0 "int (cols img) - int dx + 1" rs] by auto
  from small have "randint 0 (int (rows img) - int dy + 1) (\<lambda>n. rs (Suc n)) = (Inl ValueError, (\<lambda>n. rs (Suc n)))"
    by (intro randint_fails) simp
  with x show ?thesis by (simp add: random_crop_def)
qed

lemma random_crops_ok:
  assumes "dy \<le> rows img" "dx \<le> cols img"
  shows "\<exists>cs rs'. random_crops img (dy, dx) n rs = (Inr cs, rs') \<and> length cs = n
           \<and> (\<forall>c \<in> set cs. rows c = dy \<and> cols c = dx)"
proof (induction n arbitrary: rs)
  case 0
  show ?case by simp
next
  case (Suc n)
  from assms obtain c rs1 where c: "random_crop img (dy, dx) rs = (Inr c, rs1)" "rows c = dy" "cols c = dx"
    using random_crop_ok by blast
  from Suc [of rs1] obtain cs rs2 where cs: "random_crops img (dy, dx) n rs1 = (Inr cs, rs2)"
     "length cs = n" "\<forall>c \<in> set cs. rows c = dy \<and> cols c = dx" by blast
  with c show ?case by simp
qed

lemma random_crops_small:
  assumes "rows img < dy \<or> cols img < dx" "0 < n"
  shows "\<exists>e rs'. random_crops img (dy, dx) n rs = (Inl e, rs')"
proof -
  from assms(2) obtain m where n: "n = Suc m" by (cases n) auto
  from assms(1) obtain e rs' where "random_crop img (dy, dx) rs = (Inl e, rs')"
    using random_crop_small by blast
  with n show ?thesis by simp
qed

lemma load_img_ok:
  assumes "files path = Inr img"
  shows "\<exists>img' rs'. load_img files path training rs = (Inr img', rs')
           \<and> rows img' = rows img \<and> cols img' = cols img"
proof (cases training)
  case True
  obtain flag where "randint 0 8 rs = (Inr flag, (\<lambda>n. rs (Suc n)))"
    using randint_ok [of 0 8 rs] by auto
  with True assms show ?thesis by (simp add: load_img_def flip_left_right_def)
next
  case False
  with assms show ?thesis by (simp add: load_img_def)
qed

lemma load_img_fails:
  "files path = Inl e \<Longrightarrow> load_img files path training rs = (Inl e, rs)"
  by (simp add: load_img_def)

end
